theory Spec2Isabelle
  imports Main "HOL-Library.Product_Lexorder"
begin

section \<open>The conditional access simulator of \<^verbatim>\<open>src/main.py\<close>\<close>

text \<open>
  The development embeds \<^verbatim>\<open>PolicySimulator.simulate_access\<close>. The three attributes
  \<^verbatim>\<open>self.policies\<close>, \<^verbatim>\<open>self.users\<close> and \<^verbatim>\<open>self.context\<close> are the dictionaries
  that \<^verbatim>\<open>_load_data\<close> returned: the decoded JSON document, or the empty dictionary
  when the file could not be read or decoded. The values inside follow the JSON shapes of
  the example in the source's closing docstring: a policy is an object whose keys are all
  read with \<^verbatim>\<open>.get\<close>, so every key may be absent; a user is an object with the key
  \<^verbatim>\<open>"id"\<close>, which the source reads with \<^verbatim>\<open>user["id"]\<close>. Strings are ASCII.

  What the source does besides returning a value is explicit: the value of
  \<^verbatim>\<open>datetime.now().time()\<close> is a parameter, the calls of \<^verbatim>\<open>print\<close> and
  \<^verbatim>\<open>logging\<close> are a list of events, and an uncaught \<^verbatim>\<open>ValueError\<close> of
  \<^verbatim>\<open>datetime.strptime\<close> is the left injection of a sum.
\<close>

subsection \<open>Dictionaries\<close>

text \<open>
  A dictionary whose emptiness the source tests is an association list: \<^verbatim>\<open>not d\<close> is
  \<open>d = []\<close> and \<^verbatim>\<open>d.get(k, default)\<close> is \<open>dict_get d k default\<close>. A key read with
  \<^verbatim>\<open>.get\<close> out of a dictionary that is never tested for emptiness is a record field of
  option type, and \<open>get_or\<close> supplies the default.
\<close>

type_synonym 'v dict = "(string \<times> 'v) list"

definition dict_get :: "'v dict \<Rightarrow> string \<Rightarrow> 'v \<Rightarrow> 'v" where
  "dict_get d k dflt = (case map_of d k of None \<Rightarrow> dflt | Some v \<Rightarrow> v)"

definition get_or :: "'v option \<Rightarrow> 'v \<Rightarrow> 'v" where
  "get_or v dflt = (case v of None \<Rightarrow> dflt | Some x \<Rightarrow> x)"

subsection \<open>Times of day\<close>

text \<open>
  A \<^verbatim>\<open>datetime.time\<close> without time zone is (hour, minute, second, microsecond); Python
  compares two of them as tuples, which is the lexicographic order on the product.
\<close>

type_synonym time_of_day = "nat \<times> nat \<times> nat \<times> nat"

datatype error = ValueError_no_match string | ValueError_unconverted string

definition is_digit :: "char \<Rightarrow> bool" where
  "is_digit c \<longleftrightarrow> c \<in> set ''0123456789''"

definition digit_value :: "char \<Rightarrow> nat" where
  "digit_value c = of_char c - 48"

definition to_int :: "string \<Rightarrow> nat" where
  "to_int s = foldl (\<lambda>n c. 10 * n + digit_value c) 0 s"

text \<open>
  \<^verbatim>\<open>datetime.strptime(s, "%H:%M")\<close> matches \<^verbatim>\<open>s\<close> from its start against the regular
  expression \<^verbatim>\<open>(?P<H>2[0-3]|[0-1]\d|\d):(?P<M>[0-5]\d|\d)\<close>. Each group below lists the
  ways its alternatives match a prefix, in the order the regular expression tries them,
  with the text left over; the first complete match wins. No match raises ValueError, and
  so does text left after the match.
\<close>

definition re_H :: "string \<Rightarrow> (string \<times> string) list" where
  "re_H s =
     (case s of
        a # b # r \<Rightarrow>
          (if a = CHR ''2'' \<and> b \<in> set ''0123'' then [([a, b], r)] else []) @
          (if a \<in> set ''01'' \<and> is_digit b then [([a, b], r)] else [])
      | _ \<Rightarrow> []) @
     (case s of a # r \<Rightarrow> (if is_digit a then [([a], r)] else []) | [] \<Rightarrow> [])"

definition re_colon :: "string \<Rightarrow> string list" where
  "re_colon s = (case s of c # r \<Rightarrow> (if c = CHR '':'' then [r] else []) | [] \<Rightarrow> [])"

definition re_M :: "string \<Rightarrow> (string \<times> string) list" where
  "re_M s =
     (case s of
        a # b # r \<Rightarrow> (if a \<in> set ''012345'' \<and> is_digit b then [([a, b], r)] else [])
      | _ \<Rightarrow> []) @
     (case s of a # r \<Rightarrow> (if is_digit a then [([a], r)] else []) | [] \<Rightarrow> [])"

definition re_match :: "string \<Rightarrow> (string \<times> string \<times> string) list" where
  "re_match s = [(h, m, r3). (h, r1) \<leftarrow> re_H s, r2 \<leftarrow> re_colon r1, (m, r3) \<leftarrow> re_M r2]"

definition strptime :: "string \<Rightarrow> error + time_of_day" where
  "strptime s =
     (case re_match s of
        [] \<Rightarrow> Inl (ValueError_no_match s)
      | (h, m, r) # _ \<Rightarrow>
          if r \<noteq> [] then Inl (ValueError_unconverted r)
          else Inr (to_int h, to_int m, 0, 0))"

subsection \<open>The input documents\<close>

record grant_controls =
  access :: "string option"

record conditions =
  time :: "string dict option"
  location :: "string list option"
  device_health :: "string option"

record policy =
  name :: "string option"
  status :: "string option"
  users :: "string list option"
  conditions :: "conditions option"
  grant_controls :: "grant_controls option"

record user =
  id_attr :: string
  attrs :: "string dict"

subsection \<open>Output events\<close>

datatype level = INFO | WARNING | ERROR

datatype message =
    DataNotLoaded
  | UserNotFound string
  | PolicyGranted "string option" string
  | PolicyApplied "string option" string
  | AccessDenied string

datatype event = Print message | Log level message

subsection \<open>The three conditions\<close>

definition time_condition :: "string dict \<Rightarrow> time_of_day \<Rightarrow> error + bool" where
  "time_condition time_restrictions current_time =
     (if time_restrictions \<noteq> [] then
        (case strptime (dict_get time_restrictions ''start_time'' ''00:00'') of
           Inl e \<Rightarrow> Inl e
         | Inr start_time \<Rightarrow>
             (case strptime (dict_get time_restrictions ''end_time'' ''23:59'') of
                Inl e \<Rightarrow> Inl e
              | Inr end_time \<Rightarrow>
                  Inr (start_time \<le> current_time \<and> current_time \<le> end_time)))
      else Inr True)"

definition location_condition :: "string list \<Rightarrow> string dict \<Rightarrow> bool" where
  "location_condition allowed_locations context_data =
     (if allowed_locations \<noteq> [] then
        (case map_of context_data ''location'' of
           None \<Rightarrow> False
         | Some user_location \<Rightarrow> user_location \<in> set allowed_locations)
      else True)"

definition device_health_condition :: "string \<Rightarrow> string dict \<Rightarrow> bool" where
  "device_health_condition required_device_health context_data =
     (if required_device_health \<noteq> [] then
        map_of context_data ''device_health'' = Some required_device_health
      else True)"

subsection \<open>The loop over the policies and \<^verbatim>\<open>simulate_access\<close>\<close>

text \<open>
  The loop returns the events logged so far and either the error that ended it or the
  final value of \<^verbatim>\<open>access_granted\<close>. The \<^verbatim>\<open>break\<close> after a grant is the branch
  without a recursive call.
\<close>

fun policy_loop ::
  "policy list \<Rightarrow> string \<Rightarrow> string dict \<Rightarrow> time_of_day \<Rightarrow> event list
     \<Rightarrow> event list \<times> (error + bool)" where
  "policy_loop [] user_id context_data current_time log = (log, Inr False)"
| "policy_loop (p # rest) user_id context_data current_time log =
     (if status p \<noteq> Some ''enabled'' then
        policy_loop rest user_id context_data current_time log
      else if user_id \<in> set (get_or (users p) []) then
        (let conds = get_or (conditions p)
                       \<lparr>time = None, location = None, device_health = None\<rparr> in
         case time_condition (get_or (time conds) []) current_time of
           Inl e \<Rightarrow> (log, Inl e)
         | Inr time_condition_met \<Rightarrow>
             (let location_condition_met =
                    location_condition (get_or (location conds) []) context_data;
                  device_health_met =
                    device_health_condition (get_or (device_health conds) []) context_data
              in if time_condition_met \<and> location_condition_met \<and> device_health_met then
                   (if access (get_or (grant_controls p) \<lparr>access = None\<rparr>) = Some ''grant''
                    then (log @ [Log INFO (PolicyGranted (name p) user_id)], Inr True)
                    else policy_loop rest user_id context_data current_time
                           (log @ [Log INFO (PolicyApplied (name p) user_id)]))
                 else policy_loop rest user_id context_data current_time log))
      else policy_loop rest user_id context_data current_time log)"

definition simulate_access ::
  "policy list dict \<Rightarrow> user list dict \<Rightarrow> string dict dict \<Rightarrow> string \<Rightarrow> time_of_day
     \<Rightarrow> event list \<times> (error + bool)" where
  "simulate_access self_policies self_users self_context user_id now =
     (if self_policies = [] \<or> self_users = [] \<or> self_context = [] then
        ([Print DataNotLoaded, Log ERROR DataNotLoaded], Inr False)
      else
        (case find (\<lambda>u. id_attr u = user_id) (dict_get self_users ''users'' []) of
           None \<Rightarrow>
             ([Print (UserNotFound user_id), Log WARNING (UserNotFound user_id)], Inr False)
         | Some user_data \<Rightarrow>
             (let context_data = dict_get self_context ''context'' [];
                  current_time = now
              in case policy_loop (dict_get self_policies ''policies'' []) user_id
                        context_data current_time [] of
                   (log, Inl e) \<Rightarrow> (log, Inl e)
                 | (log, Inr access_granted) \<Rightarrow>
                     (if \<not> access_granted
                      then (log @ [Log INFO (AccessDenied user_id)], Inr access_granted)
                      else (log, Inr access_granted)))))"

subsection \<open>The vocabulary of the claims, read off the loop's guards\<close>

definition policy_list_of :: "policy list dict \<Rightarrow> policy list" where
  "policy_list_of self_policies = dict_get self_policies ''policies'' []"

definition user_list_of :: "user list dict \<Rightarrow> user list" where
  "user_list_of self_users = dict_get self_users ''users'' []"

definition context_data_of :: "string dict dict \<Rightarrow> string dict" where
  "context_data_of self_context = dict_get self_context ''context'' []"

definition data_loaded :: "policy list dict \<Rightarrow> user list dict \<Rightarrow> string dict dict \<Rightarrow> bool" where
  "data_loaded self_policies self_users self_context \<longleftrightarrow>
     self_policies \<noteq> [] \<and> self_users \<noteq> [] \<and> self_context \<noteq> []"

definition known_user :: "user list dict \<Rightarrow> string \<Rightarrow> bool" where
  "known_user self_users user_id \<longleftrightarrow> user_id \<in> set (map id_attr (user_list_of self_users))"

definition enabled :: "policy \<Rightarrow> bool" where
  "enabled p \<longleftrightarrow> status p = Some ''enabled''"

definition targets :: "policy \<Rightarrow> string \<Rightarrow> bool" where
  "targets p user_id \<longleftrightarrow> user_id \<in> set (get_or (users p) [])"

definition conditions_of :: "policy \<Rightarrow> conditions" where
  "conditions_of p =
     get_or (conditions p) \<lparr>time = None, location = None, device_health = None\<rparr>"

definition time_restrictions_of :: "policy \<Rightarrow> string dict" where
  "time_restrictions_of p = get_or (time (conditions_of p)) []"

definition conditions_met :: "policy \<Rightarrow> string dict \<Rightarrow> time_of_day \<Rightarrow> error + bool" where
  "conditions_met p context_data current_time =
     (case time_condition (time_restrictions_of p) current_time of
        Inl e \<Rightarrow> Inl e
      | Inr time_condition_met \<Rightarrow>
          Inr (time_condition_met \<and>
               location_condition (get_or (location (conditions_of p)) []) context_data \<and>
               device_health_condition (get_or (device_health (conditions_of p)) [])
                 context_data))"

definition access_is_grant :: "policy \<Rightarrow> bool" where
  "access_is_grant p \<longleftrightarrow>
     access (get_or (grant_controls p) \<lparr>access = None\<rparr>) = Some ''grant''"

text \<open>
  A policy grants when the loop reaches the \<^verbatim>\<open>break\<close> in it, is matched without
  granting when the loop logs that it applied, and raises when \<^verbatim>\<open>strptime\<close> fails in it.
\<close>

definition grants :: "policy \<Rightarrow> string \<Rightarrow> string dict \<Rightarrow> time_of_day \<Rightarrow> bool" where
  "grants p user_id context_data current_time \<longleftrightarrow>
     enabled p \<and> targets p user_id \<and>
     conditions_met p context_data current_time = Inr True \<and> access_is_grant p"

definition matched_no_grant ::
  "policy \<Rightarrow> string \<Rightarrow> string dict \<Rightarrow> time_of_day \<Rightarrow> bool" where
  "matched_no_grant p user_id context_data current_time \<longleftrightarrow>
     enabled p \<and> targets p user_id \<and>
     conditions_met p context_data current_time = Inr True \<and> \<not> access_is_grant p"

definition raises :: "policy \<Rightarrow> string \<Rightarrow> string dict \<Rightarrow> time_of_day \<Rightarrow> bool" where
  "raises p user_id context_data current_time \<longleftrightarrow>
     enabled p \<and> targets p user_id \<and> isl (conditions_met p context_data current_time)"

definition applied_events ::
  "policy list \<Rightarrow> string \<Rightarrow> string dict \<Rightarrow> time_of_day \<Rightarrow> event list" where
  "applied_events ps user_id context_data current_time =
     map (\<lambda>p. Log INFO (PolicyApplied (name p) user_id))
       (filter (\<lambda>p. matched_no_grant p user_id context_data current_time) ps)"



subsection \<open>Example documents\<close>

definition mk_policy ::
  "string \<Rightarrow> string \<Rightarrow> string list \<Rightarrow> conditions option \<Rightarrow> string \<Rightarrow> policy" where
  "mk_policy nm st us cs ac =
     \<lparr>name = Some nm, status = Some st, users = Some us, conditions = cs,
      grant_controls = Some \<lparr>access = Some ac\<rparr>\<rparr>"

definition window_conditions :: "string \<Rightarrow> string \<Rightarrow> conditions" where
  "window_conditions start_s end_s =
     \<lparr>time = Some [(''start_time'', start_s), (''end_time'', end_s)],
      location = None, device_health = None\<rparr>"

definition ex_users :: "user list dict" where
  "ex_users =
     [(''users'', [\<lparr>id_attr = ''user1'', attrs = [(''name'', ''John Doe'')]\<rparr>,
                   \<lparr>id_attr = ''user2'', attrs = [(''name'', ''Jane Smith'')]\<rparr>])]"

definition ex_context :: "string dict dict" where
  "ex_context = [(''context'', [(''location'', ''USA''), (''device_health'', ''compliant'')])]"

definition grant_a :: policy where
  "grant_a = mk_policy ''A'' ''enabled'' [''user1''] None ''grant''"

definition grant_b :: policy where
  "grant_b = mk_policy ''B'' ''enabled'' [''user1''] None ''grant''"

definition usa_block :: policy where
  "usa_block =
     mk_policy ''N'' ''enabled'' [''user1'']
       (Some \<lparr>time = None, location = Some [''USA''], device_health = None\<rparr>) ''block''"

definition bad_time_grant :: policy where
  "bad_time_grant =
     mk_policy ''T'' ''enabled'' [''user1''] (Some (window_conditions ''8am'' ''18:00''))
       ''grant''"

definition bad_time_block :: policy where
  "bad_time_block =
     mk_policy ''U'' ''enabled'' [''user1''] (Some (window_conditions ''08:00'' ''24:00''))
       ''block''"

definition disabled_grant :: policy where
  "disabled_grant = mk_policy ''D'' ''disabled'' [''user1''] None ''grant''"

definition other_user_grant :: policy where
  "other_user_grant = mk_policy ''O'' ''enabled'' [''user2''] None ''grant''"

definition office_hours :: policy where
  "office_hours =
     mk_policy ''W'' ''enabled'' [''user1''] (Some (window_conditions ''08:00'' ''18:00''))
       ''grant''"

definition overnight :: policy where
  "overnight =
     mk_policy ''V'' ''enabled'' [''user1''] (Some (window_conditions ''22:00'' ''06:00''))
       ''grant''"

section \<open>The loop, one policy at a time\<close>

text \<open>
  One iteration either ends the loop with a grant, ends the call with the error of
  \<^verbatim>\<open>strptime\<close>, or goes on to the next policy, after logging the policy when it
  matched without granting.
\<close>

lemma policy_loop_step:
  "policy_loop (p # rest) u cd t lg =
     (if grants p u cd t then (lg @ [Log INFO (PolicyGranted (name p) u)], Inr True)
      else if raises p u cd t then (lg, Inl (projl (conditions_met p cd t)))
      else policy_loop rest u cd t (lg @ applied_events [p] u cd t))"
  by (auto simp: grants_def raises_def matched_no_grant_def applied_events_def enabled_def
      targets_def conditions_met_def conditions_of_def time_restrictions_of_def
      access_is_grant_def Let_def split: sum.splits)

lemma applied_events_append:
  "applied_events (xs @ ys) u cd t = applied_events xs u cd t @ applied_events ys u cd t"
  by (simp add: applied_events_def)

lemma policy_loop_prefix:
  "\<forall>p \<in> set pre. \<not> grants p u cd t \<and> \<not> raises p u cd t \<Longrightarrow>
   policy_loop (pre @ rest) u cd t lg = policy_loop rest u cd t (lg @ applied_events pre u cd t)"
proof (induction pre arbitrary: lg)
  case Nil
  then show ?case by (simp add: applied_events_def)
next
  case (Cons p pre)
  have "policy_loop ((p # pre) @ rest) u cd t lg =
        policy_loop (pre @ rest) u cd t (lg @ applied_events [p] u cd t)"
    using Cons.prems by (simp add: policy_loop_step del: policy_loop.simps)
  also have "\<dots> = policy_loop rest u cd t ((lg @ applied_events [p] u cd t) @ applied_events pre u cd t)"
    using Cons.prems by (intro Cons.IH) simp
  also have "(lg @ applied_events [p] u cd t) @ applied_events pre u cd t = lg @ applied_events (p # pre) u cd t"
    by (simp add: applied_events_def)
  finally show ?case .
qed

lemma policy_loop_quiet:
  "\<forall>p \<in> set ps. \<not> grants p u cd t \<and> \<not> raises p u cd t \<Longrightarrow>
   policy_loop ps u cd t lg = (lg @ applied_events ps u cd t, Inr False)"
  using policy_loop_prefix [of ps u cd t "[]" lg] by simp

lemma policy_loop_first_grant:
  "\<forall>q \<in> set pre. \<not> grants q u cd t \<and> \<not> raises q u cd t \<Longrightarrow> grants p u cd t \<Longrightarrow>
   policy_loop (pre @ p # rest) u cd t lg =
     (lg @ applied_events pre u cd t @ [Log INFO (PolicyGranted (name p) u)], Inr True)"
  by (simp add: policy_loop_prefix policy_loop_step del: policy_loop.simps)

lemma raises_not_grants: "raises p u cd t \<Longrightarrow> \<not> grants p u cd t"
  by (auto simp: raises_def grants_def)

lemma policy_loop_first_raise:
  "\<forall>q \<in> set pre. \<not> grants q u cd t \<and> \<not> raises q u cd t \<Longrightarrow> raises p u cd t \<Longrightarrow>
   policy_loop (pre @ p # rest) u cd t lg =
     (lg @ applied_events pre u cd t, Inl (projl (conditions_met p cd t)))"
  by (simp add: policy_loop_prefix policy_loop_step raises_not_grants del: policy_loop.simps)

lemma find_known_user:
  "known_user U u \<Longrightarrow> \<exists>user_data. find (\<lambda>x. id_attr x = u) (dict_get U ''users'' []) = Some user_data"
  by (cases "find (\<lambda>x. id_attr x = u) (dict_get U ''users'' [])")
     (auto simp: known_user_def user_list_of_def find_None_iff)

lemma simulate_access_scan:
  assumes "data_loaded P U C" and "known_user U u"
  shows "simulate_access P U C u t =
     (case policy_loop (policy_list_of P) u (context_data_of C) t [] of
        (lg, Inl e) \<Rightarrow> (lg, Inl e)
      | (lg, Inr g) \<Rightarrow> (if g then lg else lg @ [Log INFO (AccessDenied u)], Inr g))"
proof -
  obtain user_data where "find (\<lambda>x. id_attr x = u) (dict_get U ''users'' []) = Some user_data"
    using find_known_user [OF assms(2)] by blast
  then show ?thesis
    using assms(1)
    by (auto simp: simulate_access_def data_loaded_def policy_list_of_def context_data_of_def
        Let_def split: prod.splits sum.splits)
qed

lemma malformed_time_condition:
  assumes "map_of tr ''start_time'' = Some s \<and> strptime s = Inl e \<or>
           map_of tr ''end_time'' = Some s \<and> strptime s = Inl e"
  shows "isl (time_condition tr now)"
proof -
  have ne: "tr \<noteq> []" using assms by auto
  show ?thesis
    using assms ne
    by (auto simp: time_condition_def dict_get_def split: sum.splits)
qed







lemma strptime_defaults:
  "strptime ''00:00'' = Inr (0, 0, 0, 0)" "strptime ''23:59'' = Inr (23, 59, 0, 0)"
  by code_simp+

lemma policy_loop_clock:
  "\<forall>p \<in> set ps. enabled p \<and> targets p u \<longrightarrow> time_restrictions_of p = [] \<Longrightarrow>
   policy_loop ps u cd t lg = policy_loop ps u cd t' lg"
proof (induction ps arbitrary: lg)
  case Nil
  show ?case by simp
next
  case (Cons p ps)
  have ih: "policy_loop ps u cd t l = policy_loop ps u cd t' l" for l
    using Cons.prems by (intro Cons.IH) simp
  have "enabled p \<and> targets p u \<longrightarrow> time_restrictions_of p = []"
    using Cons.prems by simp
  then show ?case
    by (auto simp: ih enabled_def targets_def time_restrictions_of_def conditions_of_def
        time_condition_def Let_def)
qed

lemma policy_loop_completes:
  assumes "snd (policy_loop ps u cd t lg) = Inr b"
  shows "\<forall>p \<in> set (takeWhile (\<lambda>p. \<not> grants p u cd t) ps). \<not> raises p u cd t"
proof (rule ccontr)
  let ?G = "\<lambda>p. \<not> grants p u cd t"
  assume "\<not> (\<forall>p \<in> set (takeWhile ?G ps). \<not> raises p u cd t)"
  then have "\<exists>p \<in> set (takeWhile ?G ps). raises p u cd t" by simp
  then obtain pre p suf where xs: "takeWhile ?G ps = pre @ p # suf"
    and rp: "raises p u cd t" and npre: "\<forall>q \<in> set pre. \<not> raises q u cd t"
    by (auto simp: split_list_first_prop_iff)
  have "\<forall>q \<in> set (takeWhile ?G ps). \<not> grants q u cd t"
    by (auto dest: set_takeWhileD)
  then have quiet: "\<forall>q \<in> set pre. \<not> grants q u cd t \<and> \<not> raises q u cd t"
    using npre xs by simp
  have "ps = pre @ p # (suf @ dropWhile ?G ps)"
    using takeWhile_dropWhile_id [of ?G ps] xs by simp
  then have "policy_loop ps u cd t lg =
      policy_loop (pre @ p # (suf @ dropWhile ?G ps)) u cd t lg" by simp
  also have "\<dots> = (lg @ applied_events pre u cd t, Inl (projl (conditions_met p cd t)))"
    using quiet rp by (rule policy_loop_first_raise)
  finally show False using assms by simp
qed

lemma policy_loop_outcome:
  assumes "\<forall>p \<in> set (takeWhile (\<lambda>p. \<not> grants p u cd t) ps). \<not> raises p u cd t"
  shows "policy_loop ps u cd t [] =
           (applied_events (takeWhile (\<lambda>p. \<not> grants p u cd t) ps) u cd t @
            (case dropWhile (\<lambda>p. \<not> grants p u cd t) ps of
               [] \<Rightarrow> []
             | p # _ \<Rightarrow> [Log INFO (PolicyGranted (name p) u)]),
            Inr (list_ex (\<lambda>p. grants p u cd t) ps))"
proof -
  let ?G = "\<lambda>p. \<not> grants p u cd t"
  have quiet: "\<forall>q \<in> set (takeWhile ?G ps). \<not> grants q u cd t \<and> \<not> raises q u cd t"
    using assms by (auto dest: set_takeWhileD)
  have split: "ps = takeWhile ?G ps @ dropWhile ?G ps" by simp
  show ?thesis
  proof (cases "dropWhile ?G ps")
    case Nil
    then have all: "takeWhile ?G ps = ps" by (metis split append_Nil2)
    then have none: "\<not> list_ex (\<lambda>p. grants p u cd t) ps"
      using quiet by (auto simp: list_ex_iff)
    have "policy_loop ps u cd t [] = ([] @ applied_events ps u cd t, Inr False)"
      using quiet unfolding all by (rule policy_loop_quiet)
    then show ?thesis
      using none by (simp add: Nil all)
  next
    case (Cons p rest)
    have gp: "grants p u cd t"
      using hd_dropWhile [of ?G ps] Cons by simp
    have "p \<in> set ps"
      using Cons by (metis list.set_intros(1) set_dropWhileD)
    then have some: "list_ex (\<lambda>p. grants p u cd t) ps"
      using gp by (auto simp: list_ex_iff)
    have "policy_loop (takeWhile ?G ps @ p # rest) u cd t [] =
        ([] @ applied_events (takeWhile ?G ps) u cd t @
           [Log INFO (PolicyGranted (name p) u)], Inr True)"
      using quiet gp by (rule policy_loop_first_grant)
    then have "policy_loop ps u cd t [] =
        (applied_events (takeWhile ?G ps) u cd t @
           [Log INFO (PolicyGranted (name p) u)], Inr True)"
      using split Cons by simp
    then show ?thesis
      using some by (simp add: Cons)
  qed
qed

section \<open>Precedence among the policies\<close>

text \<open>
  C1, as stated, fails: two enabled policies target the subject, satisfy their conditions
  and grant, but an enabled targeting policy before them has a start time that does not
  parse, and the call raises instead of granting.
\<close>

theorem earlier_malformed_policy_preempts_grants:
  "grants grant_a ''user1'' (context_data_of ex_context) (12, 0, 0, 0) \<and>
   grants grant_b ''user1'' (context_data_of ex_context) (12, 0, 0, 0) \<and>
   simulate_access [(''policies'', [bad_time_grant, grant_a, grant_b])] ex_users ex_context
       ''user1'' (12, 0, 0, 0) = ([], Inl (ValueError_no_match ''8am''))"
  by code_simp

text \<open>
  C1, amended. When the documents are loaded, the subject is known, two policies of the
  list grant and no policy before the first of them grants or raises, the call returns
  True and its last log message names the first of the two as the granting policy. No
  policy after it is examined: the call returns the same on every policy list that agrees
  up to that policy, whatever comes later.
\<close>

theorem first_grant_wins:
  assumes "data_loaded self_policies self_users self_context"
    and "known_user self_users user_id"
    and "policy_list_of self_policies = pre @ p1 # mid @ p2 # rest"
    and "\<forall>q \<in> set pre. \<not> grants q user_id (context_data_of self_context) now \<and>
                        \<not> raises q user_id (context_data_of self_context) now"
    and "grants p1 user_id (context_data_of self_context) now"
    and "grants p2 user_id (context_data_of self_context) now"
    and "data_loaded other_policies self_users self_context"
    and "policy_list_of other_policies = pre @ p1 # later"
  shows "simulate_access self_policies self_users self_context user_id now =
           (applied_events pre user_id (context_data_of self_context) now @
              [Log INFO (PolicyGranted (name p1) user_id)], Inr True) \<and>
         simulate_access other_policies self_users self_context user_id now =
           simulate_access self_policies self_users self_context user_id now"
  using assms
  by (simp add: simulate_access_scan policy_loop_first_grant del: policy_loop.simps)

theorem first_grant_wins_witness:
  "simulate_access [(''policies'', [usa_block, grant_a, disabled_grant, grant_b, overnight])]
       ex_users ex_context ''user1'' (12, 0, 0, 0) =
     ([Log INFO (PolicyApplied (Some ''N'') ''user1''),
       Log INFO (PolicyGranted (Some ''A'') ''user1'')], Inr True) \<and>
   simulate_access [(''policies'', [usa_block, grant_a, bad_time_grant])]
       ex_users ex_context ''user1'' (12, 0, 0, 0) =
   simulate_access [(''policies'', [usa_block, grant_a, disabled_grant, grant_b, overnight])]
       ex_users ex_context ''user1'' (12, 0, 0, 0)"
proof -
  let ?P = "[(''policies'', [usa_block, grant_a, disabled_grant, grant_b, overnight])]"
  let ?Q = "[(''policies'', [usa_block, grant_a, bad_time_grant])]"
  have 1: "data_loaded ?P ex_users ex_context"
    by (simp add: data_loaded_def ex_users_def ex_context_def)
  have 2: "known_user ex_users ''user1''" by code_simp
  have 3: "policy_list_of ?P = [usa_block] @ grant_a # [disabled_grant] @ grant_b # [overnight]"
    by (simp add: policy_list_of_def dict_get_def)
  have 4: "\<forall>q \<in> set [usa_block].
             \<not> grants q ''user1'' (context_data_of ex_context) (12, 0, 0, 0) \<and>
             \<not> raises q ''user1'' (context_data_of ex_context) (12, 0, 0, 0)"
    by code_simp
  have 5: "grants grant_a ''user1'' (context_data_of ex_context) (12, 0, 0, 0)" by code_simp
  have 6: "grants grant_b ''user1'' (context_data_of ex_context) (12, 0, 0, 0)" by code_simp
  have 7: "data_loaded ?Q ex_users ex_context"
    by (simp add: data_loaded_def ex_users_def ex_context_def)
  have 8: "policy_list_of ?Q = [usa_block] @ grant_a # [bad_time_grant]"
    by (simp add: policy_list_of_def dict_get_def)
  have 9: "applied_events [usa_block] ''user1'' (context_data_of ex_context) (12, 0, 0, 0) =
           [Log INFO (PolicyApplied (Some ''N'') ''user1'')]"
    by code_simp
  have 10: "name grant_a = Some ''A''" by code_simp
  show ?thesis
    using first_grant_wins [OF 1 2 3 4 5 6 7 8] by (simp add: 9 10)
qed

text \<open>
  C2, as stated, fails: the first policy matches without granting and the last one
  grants, but the policy between them has an end time that does not parse, and the call
  raises after logging the first policy.
\<close>

theorem malformed_policy_between_blocks_later_grant:
  "matched_no_grant usa_block ''user1'' (context_data_of ex_context) (9, 30, 0, 0) \<and>
   grants grant_b ''user1'' (context_data_of ex_context) (9, 30, 0, 0) \<and>
   simulate_access [(''policies'', [usa_block, bad_time_block, grant_b])] ex_users ex_context
       ''user1'' (9, 30, 0, 0) =
     ([Log INFO (PolicyApplied (Some ''N'') ''user1'')], Inl (ValueError_no_match ''24:00''))"
  by code_simp

text \<open>
  C2, amended. When the documents are loaded, the subject is known, an earlier policy is
  matched without granting, a later policy grants and no other policy before the later
  one grants or raises, the call returns True through the later policy: the earlier one
  is logged as applied and the loop goes on.
\<close>

theorem non_granting_match_does_not_halt:
  assumes "data_loaded self_policies self_users self_context"
    and "known_user self_users user_id"
    and "policy_list_of self_policies = pre @ q # mid @ p # rest"
    and "matched_no_grant q user_id (context_data_of self_context) now"
    and "grants p user_id (context_data_of self_context) now"
    and "\<forall>x \<in> set (pre @ mid). \<not> grants x user_id (context_data_of self_context) now \<and>
                               \<not> raises x user_id (context_data_of self_context) now"
  shows "simulate_access self_policies self_users self_context user_id now =
           (applied_events pre user_id (context_data_of self_context) now @
              Log INFO (PolicyApplied (name q) user_id) #
              applied_events mid user_id (context_data_of self_context) now @
              [Log INFO (PolicyGranted (name p) user_id)], Inr True)"
proof -
  let ?cd = "context_data_of self_context"
  have q: "\<not> grants q user_id ?cd now \<and> \<not> raises q user_id ?cd now"
    using assms(4) by (auto simp: matched_no_grant_def grants_def raises_def)
  have quiet: "\<forall>x \<in> set (pre @ q # mid).
                 \<not> grants x user_id ?cd now \<and> \<not> raises x user_id ?cd now"
    using assms(6) q by auto
  have "policy_loop ((pre @ q # mid) @ p # rest) user_id ?cd now [] =
          ([] @ applied_events (pre @ q # mid) user_id ?cd now @
             [Log INFO (PolicyGranted (name p) user_id)], Inr True)"
    using quiet assms(5) by (rule policy_loop_first_grant)
  moreover have "applied_events (pre @ q # mid) user_id ?cd now =
      applied_events pre user_id ?cd now @ Log INFO (PolicyApplied (name q) user_id) #
      applied_events mid user_id ?cd now"
    using assms(4) by (simp add: applied_events_def)
  ultimately show ?thesis
    using assms(1,2,3) by (simp add: simulate_access_scan del: policy_loop.simps)
qed

theorem non_granting_match_does_not_halt_witness:
  "simulate_access [(''policies'', [disabled_grant, usa_block, overnight, grant_b, grant_a])]
       ex_users ex_context ''user1'' (9, 30, 0, 0) =
     ([Log INFO (PolicyApplied (Some ''N'') ''user1''),
       Log INFO (PolicyGranted (Some ''B'') ''user1'')], Inr True)"
proof -
  let ?P = "[(''policies'', [disabled_grant, usa_block, overnight, grant_b, grant_a])]"
  have 1: "data_loaded ?P ex_users ex_context"
    by (simp add: data_loaded_def ex_users_def ex_context_def)
  have 2: "known_user ex_users ''user1''" by code_simp
  have 3: "policy_list_of ?P = [disabled_grant] @ usa_block # [overnight] @ grant_b # [grant_a]"
    by (simp add: policy_list_of_def dict_get_def)
  have 4: "matched_no_grant usa_block ''user1'' (context_data_of ex_context) (9, 30, 0, 0)"
    by code_simp
  have 5: "grants grant_b ''user1'' (context_data_of ex_context) (9, 30, 0, 0)" by code_simp
  have 6: "\<forall>x \<in> set ([disabled_grant] @ [overnight]).
             \<not> grants x ''user1'' (context_data_of ex_context) (9, 30, 0, 0) \<and>
             \<not> raises x ''user1'' (context_data_of ex_context) (9, 30, 0, 0)"
    by code_simp
  have 7: "applied_events [disabled_grant] ''user1'' (context_data_of ex_context) (9, 30, 0, 0)
           = []"
    by code_simp
  have 8: "applied_events [overnight] ''user1'' (context_data_of ex_context) (9, 30, 0, 0) = []"
    by code_simp
  have 9: "name usa_block = Some ''N''" "name grant_b = Some ''B''" by code_simp+
  show ?thesis
    using non_granting_match_does_not_halt [OF 1 2 3 4 5 6] by (simp add: 7 8 9)
qed

text \<open>
  C3, as stated, fails: the only policy is enabled, targets the subject and does not
  grant, yet the call does not return a deny, it raises, because the end time of the
  policy does not parse.
\<close>

theorem malformed_policy_raises_instead_of_deny:
  "\<not> grants bad_time_block ''user1'' (context_data_of ex_context) (12, 0, 0, 0) \<and>
   simulate_access [(''policies'', [bad_time_block])] ex_users ex_context ''user1''
       (12, 0, 0, 0) = ([], Inl (ValueError_no_match ''24:00''))"
  by code_simp

text \<open>
  C3, amended. When no policy targets the subject, or every policy that targets the
  subject is disabled, or no policy of the list grants and none raises, the call returns
  False and logs no granting policy.
\<close>

theorem no_grant_means_deny:
  assumes "(\<forall>p \<in> set (policy_list_of self_policies). \<not> targets p user_id) \<or>
           (\<forall>p \<in> set (policy_list_of self_policies). targets p user_id \<longrightarrow> \<not> enabled p) \<or>
           (\<forall>p \<in> set (policy_list_of self_policies).
              \<not> grants p user_id (context_data_of self_context) now \<and>
              \<not> raises p user_id (context_data_of self_context) now)"
  shows "snd (simulate_access self_policies self_users self_context user_id now) = Inr False \<and>
         (\<forall>nm. Log INFO (PolicyGranted nm user_id) \<notin>
                 set (fst (simulate_access self_policies self_users self_context user_id now)))"
proof -
  let ?cd = "context_data_of self_context"
  let ?ps = "policy_list_of self_policies"
  have quiet: "\<forall>p \<in> set ?ps. \<not> grants p user_id ?cd now \<and> \<not> raises p user_id ?cd now"
    using assms by (auto simp: grants_def raises_def)
  have loop: "policy_loop ?ps user_id ?cd now [] = (applied_events ?ps user_id ?cd now, Inr False)"
    using policy_loop_quiet [OF quiet, of "[]"] by simp
  have no_grant_event:
    "Log INFO (PolicyGranted nm user_id) \<notin> set (applied_events ?ps user_id ?cd now)" for nm
    by (auto simp: applied_events_def)
  show ?thesis
  proof (cases "data_loaded self_policies self_users self_context")
    case False
    then show ?thesis by (auto simp: simulate_access_def data_loaded_def)
  next
    case loaded: True
    show ?thesis
    proof (cases "known_user self_users user_id")
      case False
      then have "find (\<lambda>x. id_attr x = user_id) (dict_get self_users ''users'' []) = None"
        by (auto simp: known_user_def user_list_of_def find_None_iff)
      then show ?thesis using loaded by (simp add: simulate_access_def data_loaded_def)
    next
      case True
      show ?thesis
        using no_grant_event by (simp add: simulate_access_scan [OF loaded True] loop)
    qed
  qed
qed

theorem no_grant_means_deny_witness:
  "simulate_access [(''policies'', [disabled_grant, other_user_grant, overnight, usa_block])]
     ex_users ex_context ''user1'' (12, 0, 0, 0) =
     ([Log INFO (PolicyApplied (Some ''N'') ''user1''), Log INFO (AccessDenied ''user1'')],
      Inr False)"
proof -
  let ?P = "[(''policies'', [disabled_grant, other_user_grant, overnight, usa_block])]"
  have h: "(\<forall>p \<in> set (policy_list_of ?P). \<not> targets p ''user1'') \<or>
           (\<forall>p \<in> set (policy_list_of ?P). targets p ''user1'' \<longrightarrow> \<not> enabled p) \<or>
           (\<forall>p \<in> set (policy_list_of ?P).
              \<not> grants p ''user1'' (context_data_of ex_context) (12, 0, 0, 0) \<and>
              \<not> raises p ''user1'' (context_data_of ex_context) (12, 0, 0, 0))"
    by code_simp
  have v: "fst (simulate_access ?P ex_users ex_context ''user1'' (12, 0, 0, 0)) =
      [Log INFO (PolicyApplied (Some ''N'') ''user1''), Log INFO (AccessDenied ''user1'')]"
    by code_simp
  show ?thesis
    using no_grant_means_deny [OF h, of ex_users] v by (simp add: prod_eq_iff)
qed

section \<open>Unknown subjects, unloaded data and malformed times\<close>



text \<open>
  C5, as stated, fails: with the policies document empty, as a failed load leaves it, the
  call returns False, the value it also returns when the loaded policies deny.
\<close>

theorem unloaded_data_same_return_as_policy_deny:
  "snd (simulate_access [] ex_users ex_context ''user1'' (12, 0, 0, 0)) = Inr False \<and>
   snd (simulate_access [(''policies'', [usa_block])] ex_users ex_context ''user1''
          (12, 0, 0, 0)) = Inr False"
  by code_simp

text \<open>
  C5, amended. When the policies, the users or the context document is empty, the call
  returns False without raising, reads no user and no policy, and its only output is the
  printed and logged error message that the data is not loaded.
\<close>

theorem data_not_loaded_returns_False:
  "self_policies = [] \<or> self_users = [] \<or> self_context = [] \<Longrightarrow>
   simulate_access self_policies self_users self_context user_id now =
     ([Print DataNotLoaded, Log ERROR DataNotLoaded], Inr False)"
  by (simp add: simulate_access_def)

theorem data_not_loaded_returns_False_witness:
  "simulate_access [(''policies'', [grant_a])] [] ex_context ''user1'' (12, 0, 0, 0) =
     ([Print DataNotLoaded, Log ERROR DataNotLoaded], Inr False)"
  by (rule data_not_loaded_returns_False) simp

text \<open>
  C6, as stated, fails: an enabled policy that targets the subject and whose start time
  does not parse raises nothing when an earlier policy has granted, since the loop has
  ended before it.
\<close>

theorem malformed_policy_after_grant_not_reported:
  "enabled bad_time_grant \<and> targets bad_time_grant ''user1'' \<and>
   map_of (time_restrictions_of bad_time_grant) ''start_time'' = Some ''8am'' \<and>
   strptime ''8am'' = Inl (ValueError_no_match ''8am'') \<and>
   simulate_access [(''policies'', [grant_a, bad_time_grant])] ex_users ex_context ''user1''
       (12, 0, 0, 0) = ([Log INFO (PolicyGranted (Some ''A'') ''user1'')], Inr True)"
  by code_simp

text \<open>
  C6, amended. When the documents are loaded, the subject is known and no earlier policy
  of the list grants or raises, an enabled policy that targets the subject and whose start
  or end time does not parse makes the call raise the error of \<^verbatim>\<open>strptime\<close>; the
  time window is not defaulted and the policy is not skipped.
\<close>

theorem malformed_time_raises_when_reached:
  assumes "data_loaded self_policies self_users self_context"
    and "known_user self_users user_id"
    and "policy_list_of self_policies = pre @ p # rest"
    and "\<forall>q \<in> set pre. \<not> grants q user_id (context_data_of self_context) now \<and>
                        \<not> raises q user_id (context_data_of self_context) now"
    and "enabled p" and "targets p user_id"
    and "map_of (time_restrictions_of p) ''start_time'' = Some s \<and> strptime s = Inl e \<or>
         map_of (time_restrictions_of p) ''end_time'' = Some s \<and> strptime s = Inl e"
  shows "\<exists>err. simulate_access self_policies self_users self_context user_id now =
           (applied_events pre user_id (context_data_of self_context) now, Inl err)"
proof -
  let ?cd = "context_data_of self_context"
  have "isl (time_condition (time_restrictions_of p) now)"
    using assms(7) by (rule malformed_time_condition)
  then have "isl (conditions_met p ?cd now)"
    by (auto simp: conditions_met_def split: sum.splits)
  then have "raises p user_id ?cd now"
    using assms(5,6) by (simp add: raises_def)
  then have "policy_loop (pre @ p # rest) user_id ?cd now [] =
      ([] @ applied_events pre user_id ?cd now, Inl (projl (conditions_met p ?cd now)))"
    using assms(4) by (intro policy_loop_first_raise)
  then show ?thesis
    using assms(1,2,3) by (simp add: simulate_access_scan del: policy_loop.simps)
qed

theorem malformed_time_raises_when_reached_witness:
  "\<exists>err. simulate_access [(''policies'', [usa_block, bad_time_block, grant_a])] ex_users
            ex_context ''user1'' (12, 0, 0, 0) =
          ([Log INFO (PolicyApplied (Some ''N'') ''user1'')], Inl err)"
proof -
  let ?P = "[(''policies'', [usa_block, bad_time_block, grant_a])]"
  have 1: "data_loaded ?P ex_users ex_context"
    by (simp add: data_loaded_def ex_users_def ex_context_def)
  have 2: "known_user ex_users ''user1''" by code_simp
  have 3: "policy_list_of ?P = [usa_block] @ bad_time_block # [grant_a]"
    by (simp add: policy_list_of_def dict_get_def)
  have 4: "\<forall>q \<in> set [usa_block].
             \<not> grants q ''user1'' (context_data_of ex_context) (12, 0, 0, 0) \<and>
             \<not> raises q ''user1'' (context_data_of ex_context) (12, 0, 0, 0)"
    by code_simp
  have 5: "enabled bad_time_block" by code_simp
  have 6: "targets bad_time_block ''user1''" by code_simp
  have 7: "map_of (time_restrictions_of bad_time_block) ''start_time'' = Some ''24:00'' \<and>
             strptime ''24:00'' = Inl (ValueError_no_match ''24:00'') \<or>
           map_of (time_restrictions_of bad_time_block) ''end_time'' = Some ''24:00'' \<and>
             strptime ''24:00'' = Inl (ValueError_no_match ''24:00'')"
    by code_simp
  have 8: "applied_events [usa_block] ''user1'' (context_data_of ex_context) (12, 0, 0, 0) =
           [Log INFO (PolicyApplied (Some ''N'') ''user1'')]"
    by code_simp
  show ?thesis
    using malformed_time_raises_when_reached [OF 1 2 3 4 5 6 7] by (simp add: 8)
qed

section \<open>The time window\<close>




text \<open>
  C10. A policy whose end time is strictly earlier than its start time has a time
  condition that no current time satisfies; such a policy never grants, and the loop
  over it alone ends without a grant and logs nothing.
\<close>

theorem inverted_window_never_satisfied:
  assumes "strptime (dict_get (time_restrictions_of p) ''start_time'' ''00:00'') = Inr start_time"
    and "strptime (dict_get (time_restrictions_of p) ''end_time'' ''23:59'') = Inr end_time"
    and "end_time < start_time"
  shows "time_condition (time_restrictions_of p) now = Inr False \<and>
         \<not> grants p user_id context_data now \<and>
         policy_loop [p] user_id context_data now lg = (lg, Inr False)"
proof -
  have ne: "time_restrictions_of p \<noteq> []"
  proof
    assume "time_restrictions_of p = []"
    then have "start_time = (0, 0, 0, 0)" and "end_time = (23, 59, 0, 0)"
      using assms(1,2) by (simp_all add: dict_get_def strptime_defaults)
    then show False using assms(3) by simp
  qed
  have "\<not> (start_time \<le> now \<and> now \<le> end_time)"
    using assms(3) by auto
  then have t: "time_condition (time_restrictions_of p) now = Inr False"
    using ne by (simp add: time_condition_def assms(1,2))
  then have c: "conditions_met p context_data now = Inr False"
    by (simp add: conditions_met_def)
  then have g: "\<not> grants p user_id context_data now" and r: "\<not> raises p user_id context_data now"
    and m: "\<not> matched_no_grant p user_id context_data now"
    by (simp_all add: grants_def raises_def matched_no_grant_def)
  have "policy_loop [p] user_id context_data now lg = (lg, Inr False)"
    using g r m by (simp add: policy_loop_step applied_events_def del: policy_loop.simps(2))
  then show ?thesis using t g by simp
qed

theorem inverted_window_never_satisfied_witness:
  "time_condition (time_restrictions_of overnight) (23, 0, 0, 0) = Inr False \<and>
   \<not> grants overnight ''user1'' (context_data_of ex_context) (23, 0, 0, 0) \<and>
   policy_loop [overnight] ''user1'' (context_data_of ex_context) (23, 0, 0, 0) [] =
     ([], Inr False)"
proof -
  have 1: "strptime (dict_get (time_restrictions_of overnight) ''start_time'' ''00:00'') =
           Inr (22, 0, 0, 0)" by code_simp
  have 2: "strptime (dict_get (time_restrictions_of overnight) ''end_time'' ''23:59'') =
           Inr (6, 0, 0, 0)" by code_simp
  have 3: "((6, 0, 0, 0) :: time_of_day) < (22, 0, 0, 0)" by simp
  show ?thesis
    by (rule inverted_window_never_satisfied [OF 1 2 3])
qed

section \<open>What a call returns and what it depends on\<close>

text \<open>
  C8, as stated, fails: two calls that are granted by policies of different names return
  the same value, True, so the returned value does not carry the name of the granting
  policy; and a call over a disabled policy, a policy for another user and a policy whose
  time window fails returns and logs exactly what a call over no policy does, so nothing
  records the policies that were skipped.
\<close>

theorem returned_value_carries_no_policy_name_or_trace:
  "name grant_a \<noteq> name grant_b \<and>
   snd (simulate_access [(''policies'', [grant_a])] ex_users ex_context ''user1''
          (12, 0, 0, 0)) = Inr True \<and>
   snd (simulate_access [(''policies'', [grant_b])] ex_users ex_context ''user1''
          (12, 0, 0, 0)) = Inr True \<and>
   simulate_access [(''policies'', [disabled_grant, other_user_grant, overnight])] ex_users
       ex_context ''user1'' (12, 0, 0, 0) = ([Log INFO (AccessDenied ''user1'')], Inr False) \<and>
   simulate_access [(''policies'', [])] ex_users ex_context ''user1'' (12, 0, 0, 0) =
     ([Log INFO (AccessDenied ''user1'')], Inr False)"
  by code_simp

text \<open>
  C8, amended. A call that completes returns only the truth value of the decision: True
  exactly when the three documents are loaded, the subject is known and some policy of
  the list grants. The names reach the output and nothing else. With a document empty
  the output is the message that the data is not loaded; with the subject unknown it is
  the message that the user was not found. Otherwise it is one log message for each
  policy matched without granting among those before the first granting policy, in the
  order of the list, then the message naming the granting policy when there is one, and
  the message that access is denied when there is none. Skipped policies and policies
  whose conditions fail are not logged.
\<close>

theorem result_is_bool_with_logged_names:
  assumes "snd (simulate_access self_policies self_users self_context user_id now) = Inr b"
  shows "b = (data_loaded self_policies self_users self_context \<and>
              known_user self_users user_id \<and>
              list_ex (\<lambda>p. grants p user_id (context_data_of self_context) now)
                (policy_list_of self_policies)) \<and>
         fst (simulate_access self_policies self_users self_context user_id now) =
           (if \<not> data_loaded self_policies self_users self_context
            then [Print DataNotLoaded, Log ERROR DataNotLoaded]
            else if \<not> known_user self_users user_id
            then [Print (UserNotFound user_id), Log WARNING (UserNotFound user_id)]
            else
              applied_events
                (takeWhile (\<lambda>p. \<not> grants p user_id (context_data_of self_context) now)
                   (policy_list_of self_policies))
                user_id (context_data_of self_context) now @
              (case dropWhile (\<lambda>p. \<not> grants p user_id (context_data_of self_context) now)
                      (policy_list_of self_policies) of
                 [] \<Rightarrow> [Log INFO (AccessDenied user_id)]
               | p # _ \<Rightarrow> [Log INFO (PolicyGranted (name p) user_id)]))"
proof (cases "data_loaded self_policies self_users self_context")
  case False
  then show ?thesis
    using assms by (auto simp: simulate_access_def data_loaded_def)
next
  case loaded: True
  show ?thesis
  proof (cases "known_user self_users user_id")
    case False
    then have "find (\<lambda>x. id_attr x = user_id) (dict_get self_users ''users'' []) = None"
      by (auto simp: known_user_def user_list_of_def find_None_iff)
    then show ?thesis
      using assms loaded False by (simp add: simulate_access_def data_loaded_def)
  next
    case known: True
    let ?cd = "context_data_of self_context"
    let ?ps = "policy_list_of self_policies"
    note scan = simulate_access_scan [OF loaded known, of now]
    have "\<exists>g. snd (policy_loop ?ps user_id ?cd now []) = Inr g"
      using assms unfolding scan by (auto split: prod.splits sum.splits)
    then obtain g where "snd (policy_loop ?ps user_id ?cd now []) = Inr g" by blast
    then have "\<forall>p \<in> set (takeWhile (\<lambda>p. \<not> grants p user_id ?cd now) ?ps).
                 \<not> raises p user_id ?cd now"
      by (rule policy_loop_completes)
    then have out: "policy_loop ?ps user_id ?cd now [] =
           (applied_events (takeWhile (\<lambda>p. \<not> grants p user_id ?cd now) ?ps) user_id ?cd now @
            (case dropWhile (\<lambda>p. \<not> grants p user_id ?cd now) ?ps of
               [] \<Rightarrow> []
             | p # _ \<Rightarrow> [Log INFO (PolicyGranted (name p) user_id)]),
            Inr (list_ex (\<lambda>p. grants p user_id ?cd now) ?ps))"
      by (rule policy_loop_outcome)
    show ?thesis
    proof (cases "dropWhile (\<lambda>p. \<not> grants p user_id ?cd now) ?ps")
      case Nil
      then have "\<not> list_ex (\<lambda>p. grants p user_id ?cd now) ?ps"
        by (auto simp: list_ex_iff dropWhile_eq_Nil_conv)
      then show ?thesis
        using assms loaded known unfolding scan out by (simp add: Nil)
    next
      case (Cons p rest)
      then have "dropWhile (\<lambda>p. \<not> grants p user_id ?cd now) ?ps \<noteq> []" by simp
      then have "list_ex (\<lambda>p. grants p user_id ?cd now) ?ps"
        by (auto simp: list_ex_iff dropWhile_eq_Nil_conv)
      then show ?thesis
        using assms loaded known unfolding scan out by (simp add: Cons)
    qed
  qed
qed

theorem result_is_bool_with_logged_names_witness:
  "simulate_access
     [(''policies'', [disabled_grant, usa_block, other_user_grant, overnight, grant_b, grant_a])]
     ex_users ex_context ''user1'' (12, 0, 0, 0) =
     ([Log INFO (PolicyApplied (Some ''N'') ''user1''),
       Log INFO (PolicyGranted (Some ''B'') ''user1'')], Inr True) \<and>
   simulate_access [(''policies'', [other_user_grant, usa_block])] ex_users ex_context
     ''user3'' (12, 0, 0, 0) =
     ([Print (UserNotFound ''user3''), Log WARNING (UserNotFound ''user3'')], Inr False)"
proof -
  let ?P = "[(''policies'',
              [disabled_grant, usa_block, other_user_grant, overnight, grant_b, grant_a])]"
  let ?Q = "[(''policies'', [other_user_grant, usa_block])]"
  let ?G = "\<lambda>p. \<not> grants p ''user1'' (context_data_of ex_context) (12, 0, 0, 0)"
  have 1: "snd (simulate_access ?P ex_users ex_context ''user1'' (12, 0, 0, 0)) = Inr True"
    by code_simp
  have 2: "data_loaded ?P ex_users ex_context" by code_simp
  have 3: "known_user ex_users ''user1''" by code_simp
  have 4: "applied_events (takeWhile ?G (policy_list_of ?P)) ''user1''
             (context_data_of ex_context) (12, 0, 0, 0) =
           [Log INFO (PolicyApplied (Some ''N'') ''user1'')]"
    by code_simp
  have 5: "(case dropWhile ?G (policy_list_of ?P) of
              [] \<Rightarrow> [Log INFO (AccessDenied ''user1'')]
            | p # _ \<Rightarrow> [Log INFO (PolicyGranted (name p) ''user1'')]) =
           [Log INFO (PolicyGranted (Some ''B'') ''user1'')]"
    by code_simp
  have 6: "snd (simulate_access ?Q ex_users ex_context ''user3'' (12, 0, 0, 0)) = Inr False"
    by code_simp
  have 7: "data_loaded ?Q ex_users ex_context" by code_simp
  have 8: "\<not> known_user ex_users ''user3''" by code_simp
  have a: "simulate_access ?P ex_users ex_context ''user1'' (12, 0, 0, 0) =
     ([Log INFO (PolicyApplied (Some ''N'') ''user1''),
       Log INFO (PolicyGranted (Some ''B'') ''user1'')], Inr True)"
    using result_is_bool_with_logged_names [OF 1] 1 unfolding 4 5
    by (simp add: 2 3 prod_eq_iff)
  have b: "simulate_access ?Q ex_users ex_context ''user3'' (12, 0, 0, 0) =
     ([Print (UserNotFound ''user3''), Log WARNING (UserNotFound ''user3'')], Inr False)"
    using result_is_bool_with_logged_names [OF 6] 6
    by (simp add: 7 8 prod_eq_iff)
  show ?thesis using a b by simp
qed

text \<open>
  C9, as stated, fails: the call reads the clock, and two calls on the same policies,
  users, context and subject id return different values at 12:00 and at 19:00.
\<close>

theorem same_inputs_different_clock_different_decision:
  "snd (simulate_access [(''policies'', [office_hours])] ex_users ex_context ''user1''
          (12, 0, 0, 0)) = Inr True \<and>
   snd (simulate_access [(''policies'', [office_hours])] ex_users ex_context ''user1''
          (19, 0, 0, 0)) = Inr False"
  by code_simp

text \<open>
  C9, amended. The result is a function of the policies, the users, the context, the
  subject id and the time of day that the call reads from the clock. The clock is the
  only input besides the four, and it matters only through time restrictions: when no
  enabled policy that targets the subject has a time restriction, two calls on equal
  inputs return equal results and log the same, at any two times.
\<close>

theorem clock_matters_only_through_time_restrictions:
  assumes "\<forall>p \<in> set (policy_list_of self_policies).
             enabled p \<and> targets p user_id \<longrightarrow> time_restrictions_of p = []"
  shows "simulate_access self_policies self_users self_context user_id now =
         simulate_access self_policies self_users self_context user_id now'"
proof -
  have "policy_loop (dict_get self_policies ''policies'' []) user_id cd now [] =
        policy_loop (dict_get self_policies ''policies'' []) user_id cd now' []" for cd
    using assms unfolding policy_list_of_def by (rule policy_loop_clock)
  then show ?thesis
    by (simp add: simulate_access_def Let_def split: option.splits)
qed

theorem clock_matters_only_through_time_restrictions_witness:
  "simulate_access [(''policies'', [usa_block, grant_a])] ex_users ex_context ''user1''
     (3, 15, 0, 0) =
   simulate_access [(''policies'', [usa_block, grant_a])] ex_users ex_context ''user1''
     (23, 59, 59, 999999)"
proof -
  have h: "\<forall>p \<in> set (policy_list_of [(''policies'', [usa_block, grant_a])]).
             enabled p \<and> targets p ''user1'' \<longrightarrow> time_restrictions_of p = []"
    by code_simp
  show ?thesis
    by (rule clock_matters_only_through_time_restrictions [OF h])
qed

end
